theory Spec2Isabelle
  imports Complex_Main "HOL-Library.AList"
begin

section \<open>Values held by the realtime store\<close>

text \<open>
  The component of \<^verbatim>\<open>src/Index(1).tsx\<close> receives whatever \<^verbatim>\<open>snapshot.val()\<close>
  returns and stores it unchecked, so the model works on JavaScript values of the JSON
  kind. An object lists its own enumerable properties in the order they were created,
  each key once. A number is the rational its decimal literal denotes; the component does
  no arithmetic on numbers. A \<open>char\<close> of a string stands for one UTF-16 code unit.
\<close>

datatype json =
    JNull
  | JBool bool
  | JNum real
  | JStr string
  | JArr "json list"
  | JObj "(string \<times> json) list"

datatype js_error = TypeError

subsection \<open>Property keys and their enumeration order\<close>

text \<open>
  JavaScript enumerates the own properties of an object with the array indices first
  (the canonical decimal strings of the numbers below \<open>2^32 - 1 = 4294967295\<close>), in
  ascending numeric order, and the other string keys after them in creation order.
  \<^verbatim>\<open>Object.keys\<close>, \<^verbatim>\<open>Object.values\<close> and object spread all follow that order.
\<close>

text \<open>The decimal string of an index, as \<^verbatim>\<open>String(i)\<close> gives it.\<close>

fun index_string :: "nat \<Rightarrow> string" where
  "index_string i =
     (let units = char_of (i mod 10 + 48)
      in if 10 \<le> i then index_string (i div 10) @ [units] else [units])"

declare index_string.simps [simp del]

definition is_digit :: "char \<Rightarrow> bool" where
  "is_digit c = ((48::nat) \<le> of_char c \<and> of_char c \<le> (57::nat))"

definition nat_of_digits :: "string \<Rightarrow> nat" where
  "nat_of_digits s = foldl (\<lambda>n c. 10 * n + (of_char c - 48)) 0 s"

definition is_array_index :: "string \<Rightarrow> bool" where
  "is_array_index s =
     (s \<noteq> [] \<and> list_all is_digit s \<and> (s = ''0'' \<or> hd s \<noteq> CHR ''0'')
      \<and> nat_of_digits s < 4294967295)"

definition index_keys :: "nat \<Rightarrow> string list" where
  "index_keys n = map index_string [0..<n]"

text \<open>
  The own enumerable string-keyed properties of a value, in enumeration order: the
  elements of an array and the code units of a string under their indices, the
  properties of an object, and none for \<^verbatim>\<open>null\<close>, a boolean or a number.
\<close>

fun own_props :: "json \<Rightarrow> (string \<times> json) list" where
  "own_props (JStr s) = zip (index_keys (length s)) (map (\<lambda>c. JStr [c]) s)"
| "own_props (JArr xs) = zip (index_keys (length xs)) xs"
| "own_props (JObj ps) =
     sort_key (\<lambda>p. nat_of_digits (fst p)) (filter (\<lambda>p. is_array_index (fst p)) ps)
     @ filter (\<lambda>p. \<not> is_array_index (fst p)) ps"
| "own_props _ = []"

text \<open>\<^verbatim>\<open>Object.keys(v)\<close> and \<^verbatim>\<open>Object.values(v)\<close>: a TypeError on \<^verbatim>\<open>null\<close>.\<close>

definition object_keys :: "json \<Rightarrow> js_error + string list" where
  "object_keys v = (case v of JNull \<Rightarrow> Inl TypeError | _ \<Rightarrow> Inr (map fst (own_props v)))"

definition object_values :: "json \<Rightarrow> js_error + json list" where
  "object_values v = (case v of JNull \<Rightarrow> Inl TypeError | _ \<Rightarrow> Inr (map snd (own_props v)))"

text \<open>
  \<^verbatim>\<open>v[key]\<close> for an own property. A key that \<open>v\<close> does not own, where JavaScript
  yields \<^verbatim>\<open>undefined\<close>, reads as \<open>JNull\<close>: the component only spreads the value
  it reads, and spreading \<^verbatim>\<open>undefined\<close> and spreading \<^verbatim>\<open>null\<close> both add nothing.
\<close>

definition get_prop :: "json \<Rightarrow> string \<Rightarrow> json" where
  "get_prop v key = (case map_of (own_props v) key of Some x \<Rightarrow> x | None \<Rightarrow> JNull)"

text \<open>
  The object literal \<^verbatim>\<open>{ ...props, ...v }\<close>: every own property of \<open>v\<close> is set on
  the object under construction, replacing the value of a key already there and
  otherwise creating the property last.
\<close>

definition spread :: "(string \<times> json) list \<Rightarrow> json \<Rightarrow> (string \<times> json) list" where
  "spread props v = fold (\<lambda>p. AList.update (fst p) (snd p)) (own_props v) props"

text \<open>
  \<^verbatim>\<open>xs.slice(start, end)\<close> of \<^verbatim>\<open>Array.prototype\<close>: a negative bound counts from
  the end, both bounds are clamped to the array, and a missing \<open>end\<close> is the length.
\<close>

definition slice :: "int \<Rightarrow> int option \<Rightarrow> 'a list \<Rightarrow> 'a list" where
  "slice start end xs =
     (let len = int (length xs);
          k = (if start < 0 then max (len + start) 0 else min start len);
          final = (case end of
                     None \<Rightarrow> len
                   | Some e \<Rightarrow> if e < 0 then max (len + e) 0 else min e len)
      in take (nat (final - k)) (drop (nat k) xs))"

subsection \<open>Snapshots\<close>

text \<open>
  Modelled from the spec: the snapshot that the store client passes to a value callback
  (the \<^verbatim>\<open>DataSnapshot\<close> of \<^verbatim>\<open>firebase/database\<close>; Section 6 of the spec). It carries
  the value at its path, \<^verbatim>\<open>null\<close> when the path holds no data;
  \<^verbatim>\<open>snapshot.exists()\<close> says whether it holds any.
\<close>

datatype snapshot = Snapshot json

fun val :: "snapshot \<Rightarrow> json" where
  "val (Snapshot v) = v"

definition exists :: "snapshot \<Rightarrow> bool" where
  "exists snapshot = (val snapshot \<noteq> JNull)"

section \<open>The state of the component and the calls of its callbacks\<close>

record view_state =
  deviceData :: json
  alerts :: "json list"
  logs :: "json list"
  config :: json
  isConnected :: bool

text \<open>The initial values given to \<^verbatim>\<open>useState\<close> (lines 19 to 23).\<close>

definition initial_state :: view_state where
  "initial_state =
     \<lparr>deviceData = JNull, alerts = [], logs = [], config = JNull, isConnected = False\<rparr>"

text \<open>
  What a callback does is the sequence of state setters it calls, with
  \<^verbatim>\<open>console.error\<close> among them; a callback that throws yields the error instead.
\<close>

datatype effect =
    SetDeviceData json
  | SetAlerts "json list"
  | SetLogs "json list"
  | SetConfig json
  | SetIsConnected bool
  | ConsoleError string json

fun apply_effect :: "effect \<Rightarrow> view_state \<Rightarrow> view_state" where
  "apply_effect (SetDeviceData v) s = s\<lparr>deviceData := v\<rparr>"
| "apply_effect (SetAlerts xs) s = s\<lparr>alerts := xs\<rparr>"
| "apply_effect (SetLogs xs) s = s\<lparr>logs := xs\<rparr>"
| "apply_effect (SetConfig v) s = s\<lparr>config := v\<rparr>"
| "apply_effect (SetIsConnected b) s = s\<lparr>isConnected := b\<rparr>"
| "apply_effect (ConsoleError msg e) s = s"

definition apply_effects :: "effect list \<Rightarrow> view_state \<Rightarrow> view_state" where
  "apply_effects effs s = fold apply_effect effs s"

subsection \<open>The telemetry subscription (lines 37 to 60)\<close>

text \<open>
  \<open>now\<close> is the string \<^verbatim>\<open>new Date().toISOString()\<close> returns when the callback runs.
\<close>

definition fallback_reading :: "string \<Rightarrow> json" where
  "fallback_reading now =
     JObj [(''temperature'', JNum 28.5),
           (''humidity'', JNum 65),
           (''lpgLevel'', JNum 8500),
           (''flameStatus'', JBool False),
           (''gasLeakStatus'', JBool False),
           (''timestamp'', JStr now),
           (''location'', JObj [(''lat'', JNum 6.9271), (''lng'', JNum 79.8612)])]"

definition data_callback :: "string \<Rightarrow> snapshot \<Rightarrow> js_error + effect list" where
  "data_callback now snapshot =
     (if exists snapshot then Inr [SetDeviceData (val snapshot), SetIsConnected True]
      else Inr [SetDeviceData (fallback_reading now), SetIsConnected True])"

definition data_error_callback :: "json \<Rightarrow> js_error + effect list" where
  "data_error_callback error = Inr [ConsoleError ''Firebase error:'' error, SetIsConnected False]"

subsection \<open>The alerts subscription (lines 64 to 83)\<close>

text \<open>The value of the local \<^verbatim>\<open>alertsArray\<close>: one object per key of the payload.\<close>

definition alertsArray :: "json \<Rightarrow> js_error + json list" where
  "alertsArray alertsData =
     (case object_keys alertsData of
        Inl e \<Rightarrow> Inl e
      | Inr keys \<Rightarrow>
          Inr (map (\<lambda>key. JObj (spread [(''id'', JStr key)] (get_prop alertsData key))) keys))"

text \<open>
  The message of the placeholder alert. Its three characters outside ASCII are written
  as the bytes the source file holds for them.
\<close>

definition mock_alert_message :: string where
  "mock_alert_message =
     ''LPG Level Low ''
     @ [CHR 0xC3, CHR 0xA2, CHR 0xE2, CHR 0x82, CHR 0xAC, CHR 0xE2, CHR 0x80, CHR 0x9D]
     @ '' Auto-book triggered''"

definition mock_alert :: "string \<Rightarrow> json" where
  "mock_alert now =
     JObj [(''id'', JStr ''1''),
           (''type'', JStr ''auto-book''),
           (''message'', JStr mock_alert_message),
           (''timestamp'', JStr now)]"

definition alerts_callback :: "string \<Rightarrow> snapshot \<Rightarrow> js_error + effect list" where
  "alerts_callback now snapshot =
     (if exists snapshot then
        (case alertsArray (val snapshot) of
           Inl e \<Rightarrow> Inl e
         | Inr arr \<Rightarrow> Inr [SetAlerts (slice 0 (Some 10) arr)])
      else Inr [SetAlerts [mock_alert now]])"

subsection \<open>The logs subscription (lines 87 to 106)\<close>

definition mock_log :: "string \<Rightarrow> json" where
  "mock_log now =
     JObj [(''timestamp'', JStr now),
           (''eventType'', JStr ''Normal''),
           (''temperature'', JNum 28.5),
           (''humidity'', JNum 65),
           (''lpgLevel'', JNum 8500),
           (''flameStatus'', JBool False),
           (''gasLeakStatus'', JBool False)]"

definition logs_callback :: "string \<Rightarrow> snapshot \<Rightarrow> js_error + effect list" where
  "logs_callback now snapshot =
     (if exists snapshot then
        (case object_values (val snapshot) of
           Inl e \<Rightarrow> Inl e
         | Inr logsArray \<Rightarrow> Inr [SetLogs (rev (slice (- 50) None logsArray))])
      else Inr [SetLogs [mock_log now]])"

subsection \<open>The config subscription (lines 110 to 114)\<close>

definition config_callback :: "snapshot \<Rightarrow> js_error + effect list" where
  "config_callback snapshot =
     (if exists snapshot then Inr [SetConfig (val snapshot)] else Inr [])"

subsection \<open>Running a callback on the state\<close>

text \<open>
  The setters a callback called are applied in order. A callback that throws has called
  none: in each callback whatever can throw comes before the first call of a setter.
\<close>

definition deliver :: "js_error + effect list \<Rightarrow> view_state \<Rightarrow> view_state" where
  "deliver r s = (case r of Inl e \<Rightarrow> s | Inr effs \<Rightarrow> apply_effects effs s)"

section \<open>The store client and the subscriptions of the component\<close>

text \<open>
  The callbacks the component hands to \<^verbatim>\<open>onValue\<close> are closures; the model names
  them, and running a named callback runs the function above that it stands for.
\<close>

datatype callback = DataCallback | AlertsCallback | LogsCallback | ConfigCallback

datatype error_callback = DataErrorCallback

fun run_callback :: "callback \<Rightarrow> string \<Rightarrow> snapshot \<Rightarrow> js_error + effect list" where
  "run_callback DataCallback now snapshot = data_callback now snapshot"
| "run_callback AlertsCallback now snapshot = alerts_callback now snapshot"
| "run_callback LogsCallback now snapshot = logs_callback now snapshot"
| "run_callback ConfigCallback now snapshot = config_callback snapshot"

fun run_error_callback :: "error_callback \<Rightarrow> json \<Rightarrow> js_error + effect list" where
  "run_error_callback DataErrorCallback error = data_error_callback error"

text \<open>
  Modelled from the spec: the RealtimeStoreClient, that is \<^verbatim>\<open>ref\<close>, \<^verbatim>\<open>onValue\<close>
  and \<^verbatim>\<open>set\<close> of the package \<^verbatim>\<open>firebase/database\<close>, which the repository imports and
  does not contain. Following Sections 5, 6 and 8 of the spec it is a test double: a
  registry of the live listeners, each a path with its value callback and its optional
  error callback, and a record of the calls made. \<^verbatim>\<open>onValue\<close> registers a listener
  and returns the handle that cancels it; cancelling removes that listener and is safe
  to repeat; \<^verbatim>\<open>set\<close> records a write. A reference is the path it was made from.
\<close>

record listener =
  l_handle :: nat
  l_path :: string
  on_value :: callback
  on_error :: "error_callback option"

datatype store_call =
    Subscribed string nat
  | Unsubscribed nat
  | Written string json

record store =
  listeners :: "listener list"
  next_handle :: nat
  calls :: "store_call list"

definition empty_store :: store where
  "empty_store = \<lparr>listeners = [], next_handle = 0, calls = []\<rparr>"

definition onValue ::
  "string \<Rightarrow> callback \<Rightarrow> error_callback option \<Rightarrow> store \<Rightarrow> nat \<times> store" where
  "onValue p cb ecb st =
     (next_handle st,
      st\<lparr>listeners := listeners st
             @ [\<lparr>l_handle = next_handle st, l_path = p, on_value = cb, on_error = ecb\<rparr>],
         next_handle := Suc (next_handle st),
         calls := calls st @ [Subscribed p (next_handle st)]\<rparr>)"

definition unsubscribe :: "nat \<Rightarrow> store \<Rightarrow> store" where
  "unsubscribe h st =
     st\<lparr>listeners := filter (\<lambda>l. l_handle l \<noteq> h) (listeners st),
        calls := calls st @ [Unsubscribed h]\<rparr>"

definition store_set :: "string \<Rightarrow> json \<Rightarrow> store \<Rightarrow> store" where
  "store_set p v st = st\<lparr>calls := calls st @ [Written p v]\<rparr>"

text \<open>
  Modelled from the spec: what the store client delivers to a listener, a value
  notification with the snapshot (and the clock reading at that moment), or a transport
  error. A value goes to the value callback. An error goes to the error callback when
  the listener has one, and runs no code of the component when it has none.
\<close>

datatype notification = Value string snapshot | Error json

definition notify :: "listener \<Rightarrow> notification \<Rightarrow> js_error + effect list" where
  "notify l n =
     (case n of
        Value now snapshot \<Rightarrow> run_callback (on_value l) now snapshot
      | Error e \<Rightarrow>
          (case on_error l of None \<Rightarrow> Inr [] | Some cb \<Rightarrow> run_error_callback cb e))"

definition receive :: "listener \<times> notification \<Rightarrow> view_state \<Rightarrow> view_state" where
  "receive d s = deliver (notify (fst d) (snd d)) s"

text \<open>
  Modelled from the spec: a transport error raised on the subscription with handle
  \<open>h\<close> reaches the listener registered under that handle, if it is still live.
\<close>

definition transport_error :: "store \<Rightarrow> nat \<Rightarrow> json \<Rightarrow> view_state \<Rightarrow> view_state" where
  "transport_error st h e s =
     (case find (\<lambda>l. l_handle l = h) (listeners st) of
        None \<Rightarrow> s
      | Some l \<Rightarrow> receive (l, Error e) s)"

subsection \<open>The effect of the component (lines 34 to 122)\<close>

text \<open>
  The body subscribes four times and returns the cleanup, a closure over the four
  cancel handles; the model returns the handles and \<open>useEffect_cleanup\<close> is the closure.
\<close>

type_synonym subscriptions = "nat \<times> nat \<times> nat \<times> nat"

definition useEffect_body :: "string \<Rightarrow> store \<Rightarrow> subscriptions \<times> store" where
  "useEffect_body hno st =
     (let (unsubscribeData, st1) =
            onValue (''/devices/'' @ hno @ ''/current'') DataCallback (Some DataErrorCallback) st;
          (unsubscribeAlerts, st2) =
            onValue (''/devices/'' @ hno @ ''/alerts'') AlertsCallback None st1;
          (unsubscribeLogs, st3) =
            onValue (''/devices/'' @ hno @ ''/logs/events'') LogsCallback None st2;
          (unsubscribeConfig, st4) =
            onValue (''/devices/'' @ hno @ ''/config'') ConfigCallback None st3
      in ((unsubscribeData, unsubscribeAlerts, unsubscribeLogs, unsubscribeConfig), st4))"

fun useEffect_cleanup :: "subscriptions \<Rightarrow> store \<Rightarrow> store" where
  "useEffect_cleanup (unsubscribeData, unsubscribeAlerts, unsubscribeLogs, unsubscribeConfig) st =
     unsubscribe unsubscribeConfig
       (unsubscribe unsubscribeLogs
         (unsubscribe unsubscribeAlerts
           (unsubscribe unsubscribeData st)))"

text \<open>
  Modelled from the spec: the lifecycle that React gives an effect with the dependency
  list \<^verbatim>\<open>[hno]\<close> (Section 4.1 of the spec). The body runs when the component mounts;
  when a render finds \<open>hno\<close> changed, the cleanup of the previous run runs and then the
  body runs again; when the component unmounts, the last cleanup runs.
\<close>

definition mount :: "string \<Rightarrow> store \<Rightarrow> subscriptions \<times> store" where
  "mount hno st = useEffect_body hno st"

definition change_identity ::
  "string \<times> subscriptions \<Rightarrow> string \<Rightarrow> store \<Rightarrow> subscriptions \<times> store" where
  "change_identity mounted hno' st =
     (if hno' = fst mounted then (snd mounted, st)
      else useEffect_body hno' (useEffect_cleanup (snd mounted) st))"

definition unmount :: "subscriptions \<Rightarrow> store \<Rightarrow> store" where
  "unmount subs st = useEffect_cleanup subs st"

text \<open>Every live listener has a handle the store has already given out.\<close>

definition fresh_handles :: "store \<Rightarrow> bool" where
  "fresh_handles st = list_all (\<lambda>l. l_handle l < next_handle st) (listeners st)"

subsection \<open>Saving the configuration (lines 124 to 127)\<close>

text \<open>
  A handler yields the state setters it calls and the store after its store calls;
  \<^verbatim>\<open>handleSaveConfig\<close> calls no setter.
\<close>

definition handleSaveConfig :: "string \<Rightarrow> json \<Rightarrow> store \<Rightarrow> effect list \<times> store" where
  "handleSaveConfig hno newConfig st =
     ([], store_set (''/devices/'' @ hno @ ''/config'') newConfig st)"

subsection \<open>The badge of the Notifications tab (lines 160 to 167)\<close>

text \<open>
  Modelled from the spec: a record of the notification history, which the hook
  \<^verbatim>\<open>useFCM\<close> (a file of the repository that is not among the sources) provides. The
  component reads its \<^verbatim>\<open>read\<close> flag only; the other fields are the record's extension.
\<close>

record notification_record =
  read :: bool

text \<open>
  \<^verbatim>\<open>notificationHistory.filter(n => !n.read).length\<close>, and what the label renders
  after the word Notifications: the badge with that number when it is positive, and
  nothing otherwise.
\<close>

definition unread_count :: "'a notification_record_scheme list \<Rightarrow> nat" where
  "unread_count notificationHistory = length (filter (\<lambda>n. \<not> read n) notificationHistory)"

definition unread_badge :: "'a notification_record_scheme list \<Rightarrow> nat option" where
  "unread_badge notificationHistory =
     (if unread_count notificationHistory > 0 then Some (unread_count notificationHistory)
      else None)"

section \<open>Notions used to state the properties\<close>

text \<open>
  The four listeners one run of the effect body registers for house number \<open>hno\<close>,
  when the store hands out the handles \<open>n\<close> to \<open>n + 3\<close>.
\<close>

definition subscribed_listeners :: "string \<Rightarrow> nat \<Rightarrow> listener list" where
  "subscribed_listeners hno n =
     [\<lparr>l_handle = n, l_path = ''/devices/'' @ hno @ ''/current'',
        on_value = DataCallback, on_error = Some DataErrorCallback\<rparr>,
      \<lparr>l_handle = n + 1, l_path = ''/devices/'' @ hno @ ''/alerts'',
        on_value = AlertsCallback, on_error = None\<rparr>,
      \<lparr>l_handle = n + 2, l_path = ''/devices/'' @ hno @ ''/logs/events'',
        on_value = LogsCallback, on_error = None\<rparr>,
      \<lparr>l_handle = n + 3, l_path = ''/devices/'' @ hno @ ''/config'',
        on_value = ConfigCallback, on_error = None\<rparr>]"

text \<open>The two length bounds on the lists the component displays.\<close>

definition bounded :: "view_state \<Rightarrow> bool" where
  "bounded s = (length (alerts s) \<le> 10 \<and> length (logs s) \<le> 50)"

text \<open>
  Chronological order of two log events: ISO-8601 timestamps of one format are in
  time order exactly when they are in lexicographic order.
\<close>

definition earlier :: "json \<Rightarrow> json \<Rightarrow> bool" where
  "earlier a b =
     (case (get_prop a ''timestamp'', get_prop b ''timestamp'') of
        (JStr x, JStr y) \<Rightarrow> lexordp (\<lambda>c d. (of_char c :: nat) < of_char d) x y
      | _ \<Rightarrow> False)"

subsection \<open>Concrete inputs\<close>

text \<open>An alerts payload of twelve entries under the keys \<open>ka\<close> to \<open>kl\<close>.\<close>

definition twelve_alerts :: json where
  "twelve_alerts =
     JObj (map (\<lambda>c. ([CHR ''k'', c], JObj [(''message'', JStr [c])])) ''abcdefghijkl'')"

text \<open>A log payload of three events in chronological order.\<close>

definition sample_log :: "string \<Rightarrow> json" where
  "sample_log t = JObj [(''timestamp'', JStr t), (''eventType'', JStr ''Normal'')]"

definition sample_logs :: json where
  "sample_logs =
     JArr [sample_log ''2024-05-01T10:00:00.000Z'',
           sample_log ''2024-05-01T10:00:30.000Z'',
           sample_log ''2024-05-02T09:15:00.000Z'']"

text \<open>A notification history with two unread records.\<close>

definition sample_history :: "notification_record list" where
  "sample_history = [\<lparr>read = False\<rparr>, \<lparr>read = True\<rparr>, \<lparr>read = False\<rparr>]"

section \<open>Properties\<close>

subsection \<open>Slicing, keys and values\<close>

lemma slice_first: "slice 0 (Some (int n)) xs = take n xs"
  by (simp add: slice_def Let_def min_def)

lemma slice_last: "0 < n \<Longrightarrow> slice (- int n) None xs = drop (length xs - n) xs"
  by (auto simp add: slice_def Let_def max_def nat_diff_distrib)

lemma slice_first_10: "slice 0 (Some 10) xs = take 10 xs"
  using slice_first [of 10 xs] by simp

lemma slice_last_50: "slice (- 50) None xs = drop (length xs - 50) xs"
  using slice_last [of 50 xs] by simp

lemma object_keys_total: "v \<noteq> JNull \<Longrightarrow> object_keys v = Inr (map fst (own_props v))"
  by (cases v) (simp_all add: object_keys_def)

lemma object_values_total: "v \<noteq> JNull \<Longrightarrow> object_values v = Inr (map snd (own_props v))"
  by (cases v) (simp_all add: object_values_def)

lemma alertsArray_total: "v \<noteq> JNull \<Longrightarrow> \<exists>arr. alertsArray v = Inr arr"
  by (simp add: alertsArray_def object_keys_total)

lemma length_index_keys: "length (index_keys n) = n"
  by (simp add: index_keys_def)

lemma object_values_array: "object_values (JArr xs) = Inr xs"
  by (simp add: object_values_def length_index_keys)

lemma own_props_fallback:
  "own_props (fallback_reading now) =
     [(''temperature'', JNum 28.5),
      (''humidity'', JNum 65),
      (''lpgLevel'', JNum 8500),
      (''flameStatus'', JBool False),
      (''gasLeakStatus'', JBool False),
      (''timestamp'', JStr now),
      (''location'', JObj [(''lat'', JNum 6.9271), (''lng'', JNum 79.8612)])]"
  by (simp add: fallback_reading_def is_array_index_def is_digit_def)

subsection \<open>The length bounds hold after every notification\<close>

lemma alerts_callback_length:
  "alerts_callback now snapshot = Inr effs \<Longrightarrow> \<exists>xs. effs = [SetAlerts xs] \<and> length xs \<le> 10"
  by (auto simp: alerts_callback_def slice_first_10 split: if_splits sum.splits)

lemma logs_callback_length:
  "logs_callback now snapshot = Inr effs \<Longrightarrow> \<exists>xs. effs = [SetLogs xs] \<and> length xs \<le> 50"
  by (auto simp: logs_callback_def slice_last_50 split: if_splits sum.splits)

lemma receive_bounded: "bounded s \<Longrightarrow> bounded (receive d s)"
proof (cases "notify (fst d) (snd d)")
  case (Inl e)
  assume "bounded s"
  with Inl show ?thesis by (simp add: receive_def deliver_def)
next
  case (Inr effs)
  assume b: "bounded s"
  show ?thesis
  proof (cases "snd d")
    case (Value now snapshot)
    with Inr have r: "run_callback (on_value (fst d)) now snapshot = Inr effs"
      by (simp add: notify_def)
    show ?thesis
    proof (cases "on_value (fst d)")
      case DataCallback
      with r b Inr show ?thesis
        by (auto simp: receive_def deliver_def apply_effects_def data_callback_def bounded_def
            split: if_splits)
    next
      case AlertsCallback
      with r obtain xs where "effs = [SetAlerts xs]" "length xs \<le> 10"
        using alerts_callback_length by fastforce
      with b Inr show ?thesis
        by (simp add: receive_def deliver_def apply_effects_def bounded_def)
    next
      case LogsCallback
      with r obtain xs where "effs = [SetLogs xs]" "length xs \<le> 50"
        using logs_callback_length by fastforce
      with b Inr show ?thesis
        by (simp add: receive_def deliver_def apply_effects_def bounded_def)
    next
      case ConfigCallback
      with r b Inr show ?thesis
        by (auto simp: receive_def deliver_def apply_effects_def config_callback_def bounded_def
            split: if_splits)
    qed
  next
    case (Error e)
    with Inr b show ?thesis
      by (cases "on_error (fst d)"; cases "the (on_error (fst d))")
         (auto simp: receive_def deliver_def notify_def apply_effects_def
            data_error_callback_def bounded_def)
  qed
qed

lemma fold_receive_bounded: "bounded s \<Longrightarrow> bounded (fold receive ns s)"
  by (induction ns arbitrary: s) (simp_all add: receive_bounded)

lemma initial_bounded: "bounded initial_state"
  by (simp add: bounded_def initial_state_def)

subsection \<open>Alerts\<close>

text \<open>
  Claim C1. For every snapshot delivered on the alerts subscription whose path holds
  data, the callback does not throw and sets the alerts state to the first 10 entries of
  \<^verbatim>\<open>alertsArray\<close>, the decoded payload, so to all of them when there are fewer. Hence
  the alerts state has at most 10 entries after any sequence \<open>ns\<close> of notifications,
  whatever the listeners they reach and the size of the payloads they carry.
\<close>

theorem alerts_first_ten:
  assumes "exists snapshot"
  shows "\<exists>arr. alertsArray (val snapshot) = Inr arr
           \<and> alerts_callback now snapshot = Inr [SetAlerts (take 10 arr)]
           \<and> alerts (deliver (alerts_callback now snapshot) s) = take 10 arr
           \<and> length (alerts (deliver (alerts_callback now snapshot) s)) = min 10 (length arr)
           \<and> length (alerts (fold receive ns initial_state)) \<le> 10"
proof -
  from assms obtain arr where arr: "alertsArray (val snapshot) = Inr arr"
    using alertsArray_total by (auto simp: exists_def)
  with assms have cb: "alerts_callback now snapshot = Inr [SetAlerts (take 10 arr)]"
    by (simp add: alerts_callback_def slice_first_10)
  then have st: "alerts (deliver (alerts_callback now snapshot) s) = take 10 arr"
    by (simp add: deliver_def apply_effects_def)
  have "bounded (fold receive ns initial_state)"
    by (rule fold_receive_bounded [OF initial_bounded])
  then have "length (alerts (fold receive ns initial_state)) \<le> 10"
    by (simp add: bounded_def)
  with arr cb st show ?thesis by (simp add: min.commute)
qed

text \<open>
  On the payload of twelve alerts the state keeps the ten under the keys \<open>ka\<close> to
  \<open>kj\<close>, each with its key as \<open>id\<close>.
\<close>

theorem alerts_first_ten_witness:
  "exists (Snapshot twelve_alerts)
   \<and> map (\<lambda>a. get_prop a ''id'')
        (alerts (deliver (alerts_callback ''2024-05-01T10:00:00.000Z'' (Snapshot twelve_alerts))
           initial_state))
      = map JStr [''ka'', ''kb'', ''kc'', ''kd'', ''ke'', ''kf'', ''kg'', ''kh'', ''ki'', ''kj'']
   \<and> length (alerts (deliver (alerts_callback ''2024-05-01T10:00:00.000Z'' (Snapshot twelve_alerts))
        initial_state)) = 10"
proof -
  have e: "exists (Snapshot twelve_alerts)"
    by code_simp
  have a: "alertsArray twelve_alerts
      = Inr (map (\<lambda>c. JObj [(''id'', JStr [CHR ''k'', c]), (''message'', JStr [c])])
               ''abcdefghijkl'')"
    by code_simp
  from alerts_first_ten [OF e, of "''2024-05-01T10:00:00.000Z''" initial_state "[]"] a
  have "alerts (deliver (alerts_callback ''2024-05-01T10:00:00.000Z'' (Snapshot twelve_alerts))
          initial_state)
      = take 10 (map (\<lambda>c. JObj [(''id'', JStr [CHR ''k'', c]), (''message'', JStr [c])])
                   ''abcdefghijkl'')"
    by auto
  moreover have "map (\<lambda>a. get_prop a ''id'')
       (take 10 (map (\<lambda>c. JObj [(''id'', JStr [CHR ''k'', c]), (''message'', JStr [c])])
                   ''abcdefghijkl''))
      = map JStr [''ka'', ''kb'', ''kc'', ''kd'', ''ke'', ''kf'', ''kg'', ''kh'', ''ki'', ''kj'']"
    by code_simp
  ultimately show ?thesis using e by simp
qed

subsection \<open>Logs\<close>

text \<open>
  Claim C2. For every snapshot delivered on the logs subscription whose path holds
  data, with \<open>logsArray\<close> the \<open>n\<close> entries of the payload in their order (for a list,
  its elements), the callback does not throw and sets the logs state to the last
  \<open>min n 50\<close> entries of \<open>logsArray\<close>, reversed. So the state has \<open>min n 50\<close> entries; when
  \<open>logsArray\<close> is ordered by a relation \<open>R\<close> (earlier before later) the state is ordered by
  its converse (newest first); and the logs state has at most 50 entries after any
  sequence \<open>ns\<close> of notifications.
\<close>

theorem logs_last_fifty_newest_first:
  assumes "exists snapshot"
  shows "\<exists>logsArray. object_values (val snapshot) = Inr logsArray
           \<and> logs_callback now snapshot
               = Inr [SetLogs (rev (drop (length logsArray - min (length logsArray) 50) logsArray))]
           \<and> logs (deliver (logs_callback now snapshot) s)
               = rev (drop (length logsArray - min (length logsArray) 50) logsArray)
           \<and> length (logs (deliver (logs_callback now snapshot) s)) = min (length logsArray) 50
           \<and> (sorted_wrt R logsArray
                \<longrightarrow> sorted_wrt (\<lambda>a b. R b a) (logs (deliver (logs_callback now snapshot) s)))
           \<and> object_values (JArr xs) = Inr xs
           \<and> length (logs (fold receive ns initial_state)) \<le> 50"
proof -
  from assms have nn: "val snapshot \<noteq> JNull" by (simp add: exists_def)
  define logsArray where "logsArray = map snd (own_props (val snapshot))"
  have ov: "object_values (val snapshot) = Inr logsArray"
    using nn by (simp add: object_values_total logsArray_def)
  have eq: "length logsArray - min (length logsArray) 50 = length logsArray - 50" by simp
  from assms ov have cb: "logs_callback now snapshot
      = Inr [SetLogs (rev (drop (length logsArray - min (length logsArray) 50) logsArray))]"
    by (simp add: logs_callback_def slice_last_50 eq del: One_nat_def)
  then have st: "logs (deliver (logs_callback now snapshot) s)
      = rev (drop (length logsArray - min (length logsArray) 50) logsArray)"
    by (simp add: deliver_def apply_effects_def)
  have len: "length (logs (deliver (logs_callback now snapshot) s)) = min (length logsArray) 50"
    unfolding st by simp
  have srt: "sorted_wrt R logsArray
      \<longrightarrow> sorted_wrt (\<lambda>a b. R b a) (logs (deliver (logs_callback now snapshot) s))"
    unfolding st by (simp add: sorted_wrt_rev sorted_wrt_drop)
  have "bounded (fold receive ns initial_state)"
    by (rule fold_receive_bounded [OF initial_bounded])
  then have inv: "length (logs (fold receive ns initial_state)) \<le> 50"
    by (simp add: bounded_def)
  from ov cb st len srt inv object_values_array show ?thesis by blast
qed

text \<open>
  On the three sample events, which are in chronological order, the logs state is the
  three events with the latest first.
\<close>

theorem logs_last_fifty_newest_first_witness:
  "exists (Snapshot sample_logs)
   \<and> logs (deliver (logs_callback ''2024-05-02T09:15:01.000Z'' (Snapshot sample_logs)) initial_state)
      = [sample_log ''2024-05-02T09:15:00.000Z'',
         sample_log ''2024-05-01T10:00:30.000Z'',
         sample_log ''2024-05-01T10:00:00.000Z'']
   \<and> sorted_wrt earlier
        [sample_log ''2024-05-01T10:00:00.000Z'',
         sample_log ''2024-05-01T10:00:30.000Z'',
         sample_log ''2024-05-02T09:15:00.000Z'']
   \<and> sorted_wrt (\<lambda>a b. earlier b a)
        (logs (deliver (logs_callback ''2024-05-02T09:15:01.000Z'' (Snapshot sample_logs))
           initial_state))"
proof -
  let ?xs = "[sample_log ''2024-05-01T10:00:00.000Z'',
              sample_log ''2024-05-01T10:00:30.000Z'',
              sample_log ''2024-05-02T09:15:00.000Z'']"
  let ?s = "deliver (logs_callback ''2024-05-02T09:15:01.000Z'' (Snapshot sample_logs)) initial_state"
  have e: "exists (Snapshot sample_logs)"
    by (simp add: exists_def sample_logs_def)
  have v: "object_values (val (Snapshot sample_logs)) = Inr ?xs"
    by (simp add: sample_logs_def object_values_array)
  have srt: "sorted_wrt earlier ?xs"
    by code_simp
  from logs_last_fifty_newest_first [OF e, where now = "''2024-05-02T09:15:01.000Z''"
      and s = initial_state and R = earlier and xs = "[]" and ns = "[]"]
  obtain la where la: "object_values (val (Snapshot sample_logs)) = Inr la"
    and l0: "logs ?s = rev (drop (length la - min (length la) 50) la)"
    and r0: "sorted_wrt earlier la \<longrightarrow> sorted_wrt (\<lambda>a b. earlier b a) (logs ?s)"
    by blast
  from la v have "la = ?xs" by simp
  with l0 r0 have l: "logs ?s = rev (drop (length ?xs - min (length ?xs) 50) ?xs)"
    and r: "sorted_wrt earlier ?xs \<longrightarrow> sorted_wrt (\<lambda>a b. earlier b a) (logs ?s)"
    by simp_all
  from l have "logs ?s = rev ?xs" by simp
  with r srt e show ?thesis by simp
qed

subsection \<open>Telemetry\<close>

text \<open>
  Claim C3. For every telemetry notification whose path holds no data, the callback
  does not throw; it calls \<^verbatim>\<open>setDeviceData\<close> once, with the fallback reading, and then
  \<^verbatim>\<open>setIsConnected(true)\<close>. So the connected flag is true afterwards and the telemetry
  state is the fallback reading: temperature 28.5, humidity 65, lpgLevel 8500,
  flameStatus false, gasLeakStatus false, and the clock reading \<open>now\<close> as timestamp. The
  other state slots stay as they were.
\<close>

theorem telemetry_fallback:
  assumes "\<not> exists snapshot"
  shows "data_callback now snapshot = Inr [SetDeviceData (fallback_reading now), SetIsConnected True]
       \<and> isConnected (deliver (data_callback now snapshot) s) = True
       \<and> deviceData (deliver (data_callback now snapshot) s) = fallback_reading now
       \<and> get_prop (fallback_reading now) ''temperature'' = JNum 28.5
       \<and> get_prop (fallback_reading now) ''humidity'' = JNum 65
       \<and> get_prop (fallback_reading now) ''lpgLevel'' = JNum 8500
       \<and> get_prop (fallback_reading now) ''flameStatus'' = JBool False
       \<and> get_prop (fallback_reading now) ''gasLeakStatus'' = JBool False
       \<and> get_prop (fallback_reading now) ''timestamp'' = JStr now
       \<and> alerts (deliver (data_callback now snapshot) s) = alerts s
       \<and> logs (deliver (data_callback now snapshot) s) = logs s
       \<and> config (deliver (data_callback now snapshot) s) = config s"
proof -
  from assms have cb: "data_callback now snapshot
      = Inr [SetDeviceData (fallback_reading now), SetIsConnected True]"
    by (simp add: data_callback_def)
  have st: "deliver (data_callback now snapshot) s
      = s\<lparr>deviceData := fallback_reading now, isConnected := True\<rparr>"
    unfolding cb by (simp add: deliver_def apply_effects_def)
  have fields:
    "get_prop (fallback_reading now) ''temperature'' = JNum 28.5"
    "get_prop (fallback_reading now) ''humidity'' = JNum 65"
    "get_prop (fallback_reading now) ''lpgLevel'' = JNum 8500"
    "get_prop (fallback_reading now) ''flameStatus'' = JBool False"
    "get_prop (fallback_reading now) ''gasLeakStatus'' = JBool False"
    "get_prop (fallback_reading now) ''timestamp'' = JStr now"
    by (simp_all add: get_prop_def own_props_fallback)
  from cb fields show ?thesis unfolding st by simp
qed

theorem telemetry_fallback_witness:
  "\<not> exists (Snapshot JNull)
   \<and> isConnected (deliver (data_callback ''2024-05-01T10:00:00.000Z'' (Snapshot JNull)) initial_state)
   \<and> deviceData (deliver (data_callback ''2024-05-01T10:00:00.000Z'' (Snapshot JNull)) initial_state)
      = fallback_reading ''2024-05-01T10:00:00.000Z''
   \<and> get_prop (fallback_reading ''2024-05-01T10:00:00.000Z'') ''timestamp''
      = JStr ''2024-05-01T10:00:00.000Z''"
proof -
  have e: "\<not> exists (Snapshot JNull)" by (simp add: exists_def)
  from telemetry_fallback [OF e, of "''2024-05-01T10:00:00.000Z''" initial_state] e
  show ?thesis by blast
qed

text \<open>
  Claim C10. On every telemetry notification whose path holds no data, the location
  of the telemetry state is the fixed coordinate: lat 6.9271, lng 79.8612.
\<close>

theorem fallback_location:
  assumes "\<not> exists snapshot"
  shows "get_prop (deviceData (deliver (data_callback now snapshot) s)) ''location''
           = JObj [(''lat'', JNum 6.9271), (''lng'', JNum 79.8612)]
       \<and> get_prop (get_prop (deviceData (deliver (data_callback now snapshot) s)) ''location'') ''lat''
           = JNum 6.9271
       \<and> get_prop (get_prop (deviceData (deliver (data_callback now snapshot) s)) ''location'') ''lng''
           = JNum 79.8612"
proof -
  from assms have "deviceData (deliver (data_callback now snapshot) s) = fallback_reading now"
    by (simp add: data_callback_def deliver_def apply_effects_def)
  moreover have "get_prop (fallback_reading now) ''location''
      = JObj [(''lat'', JNum 6.9271), (''lng'', JNum 79.8612)]"
    by (simp add: get_prop_def own_props_fallback)
  moreover have "get_prop (JObj [(''lat'', JNum 6.9271), (''lng'', JNum 79.8612)]) ''lat''
      = JNum 6.9271"
    by (simp add: get_prop_def is_array_index_def is_digit_def)
  moreover have "get_prop (JObj [(''lat'', JNum 6.9271), (''lng'', JNum 79.8612)]) ''lng''
      = JNum 79.8612"
    by (simp add: get_prop_def is_array_index_def is_digit_def)
  ultimately show ?thesis by simp
qed

theorem fallback_location_witness:
  "\<not> exists (Snapshot JNull)
   \<and> get_prop (deviceData (deliver (data_callback ''2024-05-01T10:00:00.000Z'' (Snapshot JNull))
         initial_state)) ''location''
      = JObj [(''lat'', JNum 6.9271), (''lng'', JNum 79.8612)]"
proof -
  have e: "\<not> exists (Snapshot JNull)" by (simp add: exists_def)
  from fallback_location [OF e, of "''2024-05-01T10:00:00.000Z''" initial_state] e
  show ?thesis by blast
qed

subsection \<open>Config\<close>

text \<open>
  Claim C8, as stated, says that after every config notification whose path holds no
  data the config state is \<^verbatim>\<open>null\<close>. The callback has no branch for that case, so a
  config received before stays: after the config \<^verbatim>\<open>{brand: "X"}\<close> and then an empty
  notification, the state still holds that config.
\<close>

theorem config_empty_not_null_counterexample:
  "\<not> exists (Snapshot JNull)
   \<and> config (deliver (config_callback (Snapshot JNull))
        (deliver (config_callback (Snapshot (JObj [(''brand'', JStr ''X'')]))) initial_state))
      \<noteq> JNull"
  by (simp add: config_callback_def deliver_def apply_effects_def exists_def)

text \<open>
  Claim C8, amended. For every notification on the config subscription whose path
  holds no data, the callback calls no setter: the whole state, the config with it, is
  left as it was, so the config is \<^verbatim>\<open>null\<close> when none was received before (as in the
  initial state) and no synthetic default is applied.
\<close>

theorem config_empty_unchanged:
  assumes "\<not> exists snapshot"
  shows "config_callback snapshot = Inr []
       \<and> deliver (config_callback snapshot) s = s
       \<and> config (deliver (config_callback snapshot) s) = config s
       \<and> config (deliver (config_callback snapshot) initial_state) = JNull"
  using assms by (simp add: config_callback_def deliver_def apply_effects_def initial_state_def)

theorem config_empty_unchanged_witness:
  "\<not> exists (Snapshot JNull)
   \<and> config (deliver (config_callback (Snapshot JNull))
        (deliver (config_callback (Snapshot (JObj [(''brand'', JStr ''X'')]))) initial_state))
      = JObj [(''brand'', JStr ''X'')]"
proof -
  have e: "\<not> exists (Snapshot JNull)" by (simp add: exists_def)
  from config_empty_unchanged [OF e,
      of "deliver (config_callback (Snapshot (JObj [(''brand'', JStr ''X'')]))) initial_state"]
  show ?thesis using e
    by (simp add: config_callback_def deliver_def apply_effects_def exists_def)
qed

text \<open>
  Claim C6. \<^verbatim>\<open>handleSaveConfig(newConfig)\<close> makes one call to the store, the write of
  \<open>newConfig\<close> at the config path of the device, which is the path the config
  subscription listens on. It registers and cancels no listener and calls no state
  setter, so the state, the config slot with it, is as before the call. The config slot
  changes when the config subscription delivers the written value.
\<close>

theorem save_config_one_write:
  "handleSaveConfig hno newConfig st
     = ([], st\<lparr>calls := calls st @ [Written (''/devices/'' @ hno @ ''/config'') newConfig]\<rparr>)
   \<and> calls (snd (handleSaveConfig hno newConfig st))
       = calls st @ [Written (''/devices/'' @ hno @ ''/config'') newConfig]
   \<and> listeners (snd (handleSaveConfig hno newConfig st)) = listeners st
   \<and> apply_effects (fst (handleSaveConfig hno newConfig st)) s = s
   \<and> config (apply_effects (fst (handleSaveConfig hno newConfig st)) s) = config s
   \<and> l_path (last (listeners (snd (useEffect_body hno st)))) = ''/devices/'' @ hno @ ''/config''
   \<and> on_value (last (listeners (snd (useEffect_body hno st)))) = ConfigCallback
   \<and> config (deliver (config_callback (Snapshot newConfig)) s)
       = (if newConfig = JNull then config s else newConfig)"
  by (simp add: handleSaveConfig_def store_set_def apply_effects_def useEffect_body_def onValue_def
      config_callback_def exists_def deliver_def)

subsection \<open>Subscribing and tearing down\<close>

lemma useEffect_body_eq:
  "useEffect_body hno st =
     ((next_handle st, next_handle st + 1, next_handle st + 2, next_handle st + 3),
      st\<lparr>listeners := listeners st @ subscribed_listeners hno (next_handle st),
         next_handle := next_handle st + 4,
         calls := calls st @ map (\<lambda>l. Subscribed (l_path l) (l_handle l))
                                (subscribed_listeners hno (next_handle st))\<rparr>)"
  by (simp add: useEffect_body_def onValue_def subscribed_listeners_def)

lemma body_handles:
  "fst (useEffect_body hno st)
     = (next_handle st, next_handle st + 1, next_handle st + 2, next_handle st + 3)"
  by (simp add: useEffect_body_eq)

lemma body_listeners:
  "listeners (snd (useEffect_body hno st))
     = listeners st @ subscribed_listeners hno (next_handle st)"
  by (simp add: useEffect_body_eq)

lemma body_calls:
  "calls (snd (useEffect_body hno st))
     = calls st @ map (\<lambda>l. Subscribed (l_path l) (l_handle l))
                    (subscribed_listeners hno (next_handle st))"
  by (simp add: useEffect_body_eq)

lemma body_next_handle:
  "next_handle (snd (useEffect_body hno st)) = next_handle st + 4"
  by (simp add: useEffect_body_eq)

lemma fresh_empty: "fresh_handles empty_store"
  by (simp add: fresh_handles_def empty_store_def)

lemma fresh_find:
  "fresh_handles st \<Longrightarrow> find (\<lambda>l. l_handle l = next_handle st + k) (listeners st) = None"
  by (auto simp: fresh_handles_def list_all_iff find_None_iff)

lemma find_append_None:
  "find P xs = None \<Longrightarrow> find P (xs @ ys) = find P ys"
  by (induction xs) (auto split: if_splits)

lemma find_registered:
  assumes "fresh_handles st"
  shows "find (\<lambda>l. l_handle l = next_handle st + k) (listeners (snd (useEffect_body hno st)))
           = find (\<lambda>l. l_handle l = next_handle st + k) (subscribed_listeners hno (next_handle st))"
  unfolding body_listeners using fresh_find [OF assms] by (rule find_append_None)

lemma find_data:
  "find (\<lambda>l. l_handle l = n + 0) (subscribed_listeners hno n)
     = Some \<lparr>l_handle = n, l_path = ''/devices/'' @ hno @ ''/current'',
             on_value = DataCallback, on_error = Some DataErrorCallback\<rparr>"
  by (simp add: subscribed_listeners_def)

lemma find_alerts:
  "find (\<lambda>l. l_handle l = n + 1) (subscribed_listeners hno n)
     = Some \<lparr>l_handle = n + 1, l_path = ''/devices/'' @ hno @ ''/alerts'',
             on_value = AlertsCallback, on_error = None\<rparr>"
  by (simp add: subscribed_listeners_def)

lemma find_logs:
  "find (\<lambda>l. l_handle l = n + 2) (subscribed_listeners hno n)
     = Some \<lparr>l_handle = n + 2, l_path = ''/devices/'' @ hno @ ''/logs/events'',
             on_value = LogsCallback, on_error = None\<rparr>"
  by (simp add: subscribed_listeners_def)

lemma find_config:
  "find (\<lambda>l. l_handle l = n + 3) (subscribed_listeners hno n)
     = Some \<lparr>l_handle = n + 3, l_path = ''/devices/'' @ hno @ ''/config'',
             on_value = ConfigCallback, on_error = None\<rparr>"
  by (simp add: subscribed_listeners_def)

declare useEffect_cleanup.simps [simp del]

lemma cleanup_listeners:
  "listeners (useEffect_cleanup (a, b, c, d) st)
     = filter (\<lambda>l. l_handle l \<noteq> a \<and> l_handle l \<noteq> b \<and> l_handle l \<noteq> c \<and> l_handle l \<noteq> d)
         (listeners st)"
  by (simp add: useEffect_cleanup.simps unsubscribe_def conj_commute conj_left_commute)

lemma cleanup_calls:
  "calls (useEffect_cleanup (a, b, c, d) st) = calls st @ map Unsubscribed [a, b, c, d]"
  by (simp add: useEffect_cleanup.simps unsubscribe_def)

lemma cleanup_next_handle:
  "next_handle (useEffect_cleanup subs st) = next_handle st"
  by (cases subs) (simp add: useEffect_cleanup.simps unsubscribe_def)

lemma cleanup_after_body:
  assumes "fresh_handles st"
  shows "listeners (useEffect_cleanup (fst (useEffect_body hno st)) (snd (useEffect_body hno st)))
           = listeners st"
proof -
  let ?n = "next_handle st"
  have "filter (\<lambda>l. l_handle l \<noteq> ?n \<and> l_handle l \<noteq> ?n + 1 \<and> l_handle l \<noteq> ?n + 2
                    \<and> l_handle l \<noteq> ?n + 3) (listeners st) = listeners st"
    using assms by (auto simp: fresh_handles_def list_all_iff filter_id_conv)
  then show ?thesis
    by (simp add: useEffect_body_eq cleanup_listeners subscribed_listeners_def)
qed

text \<open>
  Claim C7. Let the component mount for \<open>hno\<close> on a store whose live listeners all
  have handles the store gave out before; the effect body subscribes four times and
  keeps the four handles. When the identity changes to \<open>hno'\<close>, the store is called
  eight times: the four previous handles are cancelled, each once, and four listeners
  are subscribed on the paths of \<open>hno'\<close>; afterwards the live listeners are those from
  before the mount and the four new ones, none of the previous four. When the view is
  torn down, the four handles are cancelled and the live listeners are those from
  before the mount. Running the cleanup a second time, or cancelling any handle a
  second time, leaves the live listeners as they are.
\<close>

theorem teardown_all_four:
  assumes "fresh_handles st" and "hno' \<noteq> hno"
  shows "let n = next_handle st;
             subs = fst (mount hno st);
             st1 = snd (mount hno st);
             st2 = snd (change_identity (hno, subs) hno' st1)
         in subs = (n, n + 1, n + 2, n + 3)
          \<and> listeners st1 = listeners st @ subscribed_listeners hno n
          \<and> calls st2 = calls st1 @ map Unsubscribed [n, n + 1, n + 2, n + 3]
                @ map (\<lambda>l. Subscribed (l_path l) (l_handle l)) (subscribed_listeners hno' (n + 4))
          \<and> listeners st2 = listeners st @ subscribed_listeners hno' (n + 4)
          \<and> calls (unmount subs st1) = calls st1 @ map Unsubscribed [n, n + 1, n + 2, n + 3]
          \<and> listeners (unmount subs st1) = listeners st
          \<and> listeners (useEffect_cleanup subs (useEffect_cleanup subs st1))
              = listeners (useEffect_cleanup subs st1)
          \<and> listeners (unsubscribe h (unsubscribe h st')) = listeners (unsubscribe h st')"
proof -
  let ?n = "next_handle st"
  let ?subs = "(?n, ?n + 1, ?n + 2, ?n + 3)"
  let ?st1 = "snd (useEffect_body hno st)"
  have subs: "fst (useEffect_body hno st) = ?subs"
    by (rule body_handles)
  have l1: "listeners ?st1 = listeners st @ subscribed_listeners hno ?n"
    by (rule body_listeners)
  have restored: "listeners (useEffect_cleanup ?subs ?st1) = listeners st"
    using cleanup_after_body [OF assms(1), of hno] unfolding subs .
  have nh: "next_handle (useEffect_cleanup ?subs ?st1) = ?n + 4"
    unfolding cleanup_next_handle body_next_handle ..
  have c1: "calls (useEffect_cleanup ?subs ?st1)
      = calls ?st1 @ map Unsubscribed [?n, ?n + 1, ?n + 2, ?n + 3]"
    by (rule cleanup_calls)
  have ci: "change_identity (hno, ?subs) hno' ?st1
      = useEffect_body hno' (useEffect_cleanup ?subs ?st1)"
    using assms(2) by (simp add: change_identity_def)
  have l2: "listeners (snd (change_identity (hno, ?subs) hno' ?st1))
      = listeners st @ subscribed_listeners hno' (?n + 4)"
    unfolding ci body_listeners restored nh ..
  have c2: "calls (snd (change_identity (hno, ?subs) hno' ?st1))
      = calls ?st1 @ map Unsubscribed [?n, ?n + 1, ?n + 2, ?n + 3]
          @ map (\<lambda>l. Subscribed (l_path l) (l_handle l)) (subscribed_listeners hno' (?n + 4))"
    unfolding ci body_calls c1 nh by simp
  have idem: "listeners (useEffect_cleanup ?subs (useEffect_cleanup ?subs ?st1))
      = listeners (useEffect_cleanup ?subs ?st1)"
    by (simp add: cleanup_listeners)
  have idem1: "listeners (unsubscribe h (unsubscribe h st')) = listeners (unsubscribe h st')"
    by (simp add: unsubscribe_def)
  show ?thesis
    unfolding Let_def mount_def unmount_def subs
    using l1 l2 c2 c1 restored idem idem1 by blast
qed

text \<open>
  From the empty store: mounting for house number 23 takes the handles 0 to 3; the
  change to 24 leaves exactly the four listeners of 24, under the handles 4 to 7; the
  teardown leaves no listener.
\<close>

theorem teardown_all_four_witness:
  "fresh_handles empty_store \<and> ''24'' \<noteq> ''23''
   \<and> fst (mount ''23'' empty_store) = (0, 1, 2, 3)
   \<and> listeners (snd (mount ''23'' empty_store)) = subscribed_listeners ''23'' 0
   \<and> listeners (snd (change_identity (''23'', fst (mount ''23'' empty_store)) ''24''
         (snd (mount ''23'' empty_store)))) = subscribed_listeners ''24'' 4
   \<and> listeners (unmount (fst (mount ''23'' empty_store)) (snd (mount ''23'' empty_store))) = []"
proof -
  have d: "''24'' \<noteq> ''23''" by simp
  have n: "next_handle empty_store = 0" and l: "listeners empty_store = []"
    by (simp_all add: empty_store_def)
  from teardown_all_four [OF fresh_empty d, of "0" empty_store] fresh_empty d show ?thesis
    unfolding Let_def n l by auto
qed

subsection \<open>Transport errors\<close>

lemma receive_error_none: "on_error l = None \<Longrightarrow> receive (l, Error e) s = s"
  by (simp add: receive_def notify_def deliver_def apply_effects_def)

lemma receive_error_data:
  "on_error l = Some DataErrorCallback \<Longrightarrow> receive (l, Error e) s = s\<lparr>isConnected := False\<rparr>"
  by (simp add: receive_def notify_def deliver_def apply_effects_def data_error_callback_def)

lemma receive_error_frame:
  "deviceData (receive (l, Error e) s) = deviceData s
   \<and> alerts (receive (l, Error e) s) = alerts s
   \<and> logs (receive (l, Error e) s) = logs s
   \<and> config (receive (l, Error e) s) = config s"
proof (cases "on_error l")
  case None
  then show ?thesis by (simp add: receive_error_none)
next
  case (Some cb)
  then have "on_error l = Some DataErrorCallback" by (cases cb) simp
  then show ?thesis by (simp add: receive_error_data)
qed

lemma transport_error_frame:
  "deviceData (transport_error st h e s) = deviceData s
   \<and> alerts (transport_error st h e s) = alerts s
   \<and> logs (transport_error st h e s) = logs s
   \<and> config (transport_error st h e s) = config s"
  by (cases "find (\<lambda>l. l_handle l = h) (listeners st)")
     (simp_all add: transport_error_def receive_error_frame)

text \<open>
  Claim C9. Of the four listeners the effect body registers, only the telemetry one
  has an error callback. A transport error raised on the alerts, the logs or the config
  subscription runs no code of the component: the state after it is the state before
  it, the connected flag included.
\<close>

theorem only_telemetry_observes_errors:
  assumes "fresh_handles st"
  shows "let n = next_handle st; st1 = snd (useEffect_body hno st)
         in fst (useEffect_body hno st) = (n, n + 1, n + 2, n + 3)
          \<and> map on_error (subscribed_listeners hno n) = [Some DataErrorCallback, None, None, None]
          \<and> listeners st1 = listeners st @ subscribed_listeners hno n
          \<and> transport_error st1 (n + 1) e s = s
          \<and> transport_error st1 (n + 2) e s = s
          \<and> transport_error st1 (n + 3) e s = s"
proof -
  let ?n = "next_handle st"
  let ?st1 = "snd (useEffect_body hno st)"
  have a: "transport_error ?st1 (?n + 1) e s = s"
    unfolding transport_error_def find_registered [OF assms] find_alerts
    by (simp add: receive_error_none)
  have b: "transport_error ?st1 (?n + 2) e s = s"
    unfolding transport_error_def find_registered [OF assms] find_logs
    by (simp add: receive_error_none)
  have c: "transport_error ?st1 (?n + 3) e s = s"
    unfolding transport_error_def find_registered [OF assms] find_config
    by (simp add: receive_error_none)
  have m: "map on_error (subscribed_listeners hno ?n) = [Some DataErrorCallback, None, None, None]"
    by (simp add: subscribed_listeners_def)
  show ?thesis
    unfolding Let_def using body_handles [of hno st] body_listeners [of hno st] a b c m by blast
qed

text \<open>
  After the fallback reading has set the connected flag, a transport error on the
  alerts subscription (handle 1) leaves the state as it is.
\<close>

theorem only_telemetry_observes_errors_witness:
  "fresh_handles empty_store
   \<and> fst (useEffect_body ''23'' empty_store) = (0, 1, 2, 3)
   \<and> transport_error (snd (useEffect_body ''23'' empty_store)) 1
        (JObj [(''code'', JStr ''PERMISSION_DENIED'')])
        (deliver (data_callback ''2024-05-01T10:00:00.000Z'' (Snapshot JNull)) initial_state)
      = deliver (data_callback ''2024-05-01T10:00:00.000Z'' (Snapshot JNull)) initial_state"
proof -
  have n: "next_handle empty_store = 0"
    by (simp add: empty_store_def)
  from only_telemetry_observes_errors [OF fresh_empty, of "''23''"
      "JObj [(''code'', JStr ''PERMISSION_DENIED'')]"
      "deliver (data_callback ''2024-05-01T10:00:00.000Z'' (Snapshot JNull)) initial_state"]
    fresh_empty
  show ?thesis unfolding Let_def n by auto
qed

text \<open>
  Claim C4, as stated, says that every transport error on a read subscription sets the
  connected flag to false. The component mounted for house number 23 holds the alerts
  subscription under handle 1; once a telemetry notification has set the flag, a
  transport error on the alerts subscription leaves it true.
\<close>

theorem transport_error_alerts_counterexample:
  "fst (useEffect_body ''23'' empty_store) = (0, 1, 2, 3)
   \<and> isConnected (deliver (data_callback ''2024-05-01T10:00:00.000Z'' (Snapshot JNull)) initial_state)
   \<and> isConnected (transport_error (snd (useEffect_body ''23'' empty_store)) 1
        (JObj [(''code'', JStr ''PERMISSION_DENIED'')])
        (deliver (data_callback ''2024-05-01T10:00:00.000Z'' (Snapshot JNull)) initial_state))"
  by (simp add: useEffect_body_eq subscribed_listeners_def empty_store_def transport_error_def
      receive_def notify_def deliver_def apply_effects_def data_callback_def exists_def)

text \<open>
  Claim C4, amended. For every transport error raised on the telemetry subscription,
  the error callback logs the error with \<^verbatim>\<open>console.error\<close>, sets the connected flag to
  false and returns; nothing else of the state changes. For a transport error raised on
  any subscription \<open>h\<close>, the telemetry, the alerts, the logs and the config state are
  left as they were.
\<close>

theorem transport_error_telemetry:
  assumes "fresh_handles st"
  shows "let n = next_handle st; st1 = snd (useEffect_body hno st)
         in fst (useEffect_body hno st) = (n, n + 1, n + 2, n + 3)
          \<and> data_error_callback e = Inr [ConsoleError ''Firebase error:'' e, SetIsConnected False]
          \<and> transport_error st1 n e s = s\<lparr>isConnected := False\<rparr>
          \<and> isConnected (transport_error st1 n e s) = False
          \<and> deviceData (transport_error st1 h e s) = deviceData s
          \<and> alerts (transport_error st1 h e s) = alerts s
          \<and> logs (transport_error st1 h e s) = logs s
          \<and> config (transport_error st1 h e s) = config s"
proof -
  let ?n = "next_handle st"
  let ?st1 = "snd (useEffect_body hno st)"
  have "find (\<lambda>l. l_handle l = ?n) (listeners ?st1)
      = find (\<lambda>l. l_handle l = ?n) (subscribed_listeners hno ?n)"
    using find_registered [OF assms, of 0 hno] by simp
  then have a: "transport_error ?st1 ?n e s = s\<lparr>isConnected := False\<rparr>"
    using find_data [of ?n hno] by (simp add: transport_error_def receive_error_data)
  then have b: "isConnected (transport_error ?st1 ?n e s) = False"
    by simp
  have c: "data_error_callback e = Inr [ConsoleError ''Firebase error:'' e, SetIsConnected False]"
    by (simp add: data_error_callback_def)
  show ?thesis
    unfolding Let_def
    using body_handles [of hno st] a b c transport_error_frame [of ?st1 h e s] by blast
qed

theorem transport_error_telemetry_witness:
  "fresh_handles empty_store
   \<and> fst (useEffect_body ''23'' empty_store) = (0, 1, 2, 3)
   \<and> isConnected (deliver (data_callback ''2024-05-01T10:00:00.000Z'' (Snapshot JNull)) initial_state)
   \<and> \<not> isConnected (transport_error (snd (useEffect_body ''23'' empty_store)) 0
        (JObj [(''code'', JStr ''PERMISSION_DENIED'')])
        (deliver (data_callback ''2024-05-01T10:00:00.000Z'' (Snapshot JNull)) initial_state))"
proof -
  have n: "next_handle empty_store = 0"
    by (simp add: empty_store_def)
  have c: "isConnected (deliver (data_callback ''2024-05-01T10:00:00.000Z'' (Snapshot JNull))
      initial_state)"
    by (simp add: data_callback_def exists_def deliver_def apply_effects_def)
  from transport_error_telemetry [OF fresh_empty, of "''23''"
      "JObj [(''code'', JStr ''PERMISSION_DENIED'')]"
      "deliver (data_callback ''2024-05-01T10:00:00.000Z'' (Snapshot JNull)) initial_state" 0]
    fresh_empty c
  show ?thesis unfolding Let_def n by auto
qed

subsection \<open>The unread badge\<close>

lemma unread_count_mark:
  "i < length h \<Longrightarrow> \<not> read (h ! i)
     \<Longrightarrow> Suc (unread_count (h[i := (h ! i)\<lparr>read := True\<rparr>])) = unread_count h"
proof (induction h arbitrary: i)
  case Nil
  then show ?case by simp
next
  case (Cons x xs)
  show ?case
  proof (cases i)
    case 0
    with Cons.prems show ?thesis by (simp add: unread_count_def)
  next
    case (Suc j)
    with Cons.prems have "Suc (unread_count (xs[j := (xs ! j)\<lparr>read := True\<rparr>])) = unread_count xs"
      using Cons.IH [of j] by simp
    with Suc show ?thesis by (simp add: unread_count_def)
  qed
qed

lemma unread_count_zero: "(unread_count h = 0) = list_all read h"
  by (induction h) (simp_all add: unread_count_def)

text \<open>
  Claim C5, as stated, says that the tab displays the number of unread records at all
  times. The label renders the badge under the guard that the number is positive: for a
  history whose only record is read, the number is 0 and no number is displayed.
\<close>

theorem unread_badge_zero_counterexample:
  "unread_count [\<lparr>read = True\<rparr>] = 0 \<and> unread_badge [\<lparr>read = True\<rparr>] \<noteq> Some 0"
  by (simp add: unread_badge_def unread_count_def)

text \<open>
  Claim C5, amended. For every notification history \<open>h\<close>, the Notifications tab
  displays a number exactly when some record of \<open>h\<close> is unread, and that number is the
  number of records of \<open>h\<close> whose read flag is false; when every record is read it
  displays none. What is displayed is a function of the history alone. In particular,
  right after one unread record (the one at any position \<open>i\<close>) is marked as read, the
  number of unread records is one less, and the tab displays that number, or none when
  it has become 0.
\<close>

theorem unread_badge_count:
  "(unread_badge h = Some k) = (k = length (filter (\<lambda>n. \<not> read n) h) \<and> 0 < k)
   \<and> (unread_badge h = None) = list_all read h
   \<and> (i < length h \<and> \<not> read (h ! i) \<longrightarrow>
        unread_count (h[i := (h ! i)\<lparr>read := True\<rparr>]) = unread_count h - 1
        \<and> unread_badge (h[i := (h ! i)\<lparr>read := True\<rparr>])
            = (if unread_count h = 1 then None else Some (unread_count h - 1)))"
proof -
  have a: "(unread_badge h = Some k) = (k = length (filter (\<lambda>n. \<not> read n) h) \<and> 0 < k)"
    by (auto simp: unread_badge_def unread_count_def)
  have b: "(unread_badge h = None) = list_all read h"
    using unread_count_zero [of h] by (auto simp: unread_badge_def)
  have c: "i < length h \<and> \<not> read (h ! i) \<longrightarrow>
        unread_count (h[i := (h ! i)\<lparr>read := True\<rparr>]) = unread_count h - 1
        \<and> unread_badge (h[i := (h ! i)\<lparr>read := True\<rparr>])
            = (if unread_count h = 1 then None else Some (unread_count h - 1))"
  proof
    assume p: "i < length h \<and> \<not> read (h ! i)"
    then have m: "Suc (unread_count (h[i := (h ! i)\<lparr>read := True\<rparr>])) = unread_count h"
      using unread_count_mark [of i h] by simp
    have d: "unread_count (h[i := (h ! i)\<lparr>read := True\<rparr>]) = unread_count h - 1"
      using m by simp
    have "unread_badge (h[i := (h ! i)\<lparr>read := True\<rparr>])
        = (if unread_count h = 1 then None else Some (unread_count h - 1))"
      unfolding unread_badge_def d using m by auto
    with d show "unread_count (h[i := (h ! i)\<lparr>read := True\<rparr>]) = unread_count h - 1
        \<and> unread_badge (h[i := (h ! i)\<lparr>read := True\<rparr>])
            = (if unread_count h = 1 then None else Some (unread_count h - 1))"
      by simp
  qed
  from a b c show ?thesis by blast
qed

text \<open>
  The sample history has two unread records and the tab displays 2; with the first
  record marked as read it displays 1.
\<close>

theorem unread_badge_count_witness:
  "0 < length sample_history \<and> \<not> read (sample_history ! 0)
   \<and> unread_badge sample_history = Some 2
   \<and> unread_badge (sample_history[0 := (sample_history ! 0)\<lparr>read := True\<rparr>]) = Some 1"
proof -
  have p: "0 < length sample_history \<and> \<not> read (sample_history ! 0)"
    by (simp add: sample_history_def)
  have n: "unread_count sample_history = 2"
    by (simp add: sample_history_def unread_count_def)
  from unread_badge_count [of sample_history 2 0] p n show ?thesis
    by (simp add: sample_history_def)
qed

end
